theory Spec2Isabelle
  imports Main
begin

section \<open>Strings\<close>

text \<open>
  JavaScript strings are modelled as \<open>string\<close>: a list of code units below 256. The
  helpers below follow \<open>String.prototype\<close>: \<open>split\<close> on one separator character,
  \<open>join\<close>, \<open>startsWith\<close>, \<open>endsWith\<close> and \<open>trim\<close>. Of the code units below 256,
  \<open>trim\<close> removes TAB, LF, VT, FF, CR, SPACE and NBSP.
\<close>

definition LF :: char where
  "LF = CHR 0x0A"

definition CR :: char where
  "CR = CHR 0x0D"

fun split_on :: "char \<Rightarrow> string \<Rightarrow> string list" where
  "split_on c [] = [[]]"
| "split_on c (x # xs) =
     (if x = c then [] # split_on c xs
      else (case split_on c xs of
              [] \<Rightarrow> [[x]]
            | l # ls \<Rightarrow> (x # l) # ls))"

fun join :: "string \<Rightarrow> string list \<Rightarrow> string" where
  "join sep [] = []"
| "join sep [x] = x"
| "join sep (x # y # ys) = x @ sep @ join sep (y # ys)"

definition startsWith :: "string \<Rightarrow> string \<Rightarrow> bool" where
  "startsWith s p = (take (length p) s = p)"

definition endsWith :: "string \<Rightarrow> string \<Rightarrow> bool" where
  "endsWith s p = (length p \<le> length s \<and> drop (length s - length p) s = p)"

definition is_space :: "char \<Rightarrow> bool" where
  "is_space c = (c \<in> set [CHR 0x09, CHR 0x0A, CHR 0x0B, CHR 0x0C, CHR 0x0D, CHR 0x20, CHR 0xA0])"

definition trimStart :: "string \<Rightarrow> string" where
  "trimStart s = dropWhile is_space s"

definition trimEnd :: "string \<Rightarrow> string" where
  "trimEnd s = rev (dropWhile is_space (rev s))"

definition trim :: "string \<Rightarrow> string" where
  "trim s = trimEnd (trimStart s)"

section \<open>Path guard\<close>

text \<open>
  Node's POSIX \<open>path\<close> module, as far as the guard uses it. \<open>path.resolve\<close> of one
  argument prefixes a relative path with the working directory, drops empty and \<open>.\<close>
  segments, lets \<open>..\<close> remove the segment before it (and nothing at the root), and
  returns \<open>/\<close> followed by the remaining segments joined by \<open>/\<close>. \<open>path.relative\<close>
  resolves both paths, drops their common leading segments, and answers one \<open>..\<close> for
  each segment left of \<open>from\<close> followed by the segments left of \<open>to\<close>.
\<close>

definition path_isAbsolute :: "string \<Rightarrow> bool" where
  "path_isAbsolute p = (case p of [] \<Rightarrow> False | c # _ \<Rightarrow> c = CHR ''/'')"

definition path_segments :: "string \<Rightarrow> string list" where
  "path_segments p = filter (\<lambda>s. s \<noteq> []) (split_on (CHR ''/'') p)"

fun normalize_segments :: "string list \<Rightarrow> string list \<Rightarrow> string list" where
  "normalize_segments acc [] = rev acc"
| "normalize_segments acc (s # ss) =
     (if s = ''.'' then normalize_segments acc ss
      else if s = ''..'' then normalize_segments (tl acc) ss
      else normalize_segments (s # acc) ss)"

definition resolved_segments :: "string \<Rightarrow> string \<Rightarrow> string list" where
  "resolved_segments cwd p =
     normalize_segments []
       (path_segments (if path_isAbsolute p then p else cwd @ ''/'' @ p))"

definition path_resolve :: "string \<Rightarrow> string \<Rightarrow> string" where
  "path_resolve cwd p = ''/'' @ join ''/'' (resolved_segments cwd p)"

fun drop_common :: "string list \<Rightarrow> string list \<Rightarrow> string list \<times> string list" where
  "drop_common (x # xs) (y # ys) =
     (if x = y then drop_common xs ys else (x # xs, y # ys))"
| "drop_common xs ys = (xs, ys)"

definition path_relative :: "string \<Rightarrow> string \<Rightarrow> string \<Rightarrow> string" where
  "path_relative cwd from to =
     (case drop_common (resolved_segments cwd from) (resolved_segments cwd to) of
        (fs, ts) \<Rightarrow> join ''/'' (map (\<lambda>_. ''..'') fs @ ts))"

text \<open>
  \<open>path.normalize\<close> and \<open>path.join\<close> of two arguments. A relative path keeps the
  \<open>..\<close> segments that lead above its start, a trailing \<open>/\<close> is kept, and the empty
  result is \<open>.\<close>.
\<close>

fun normalize_relative :: "string list \<Rightarrow> string list \<Rightarrow> string list" where
  "normalize_relative acc [] = rev acc"
| "normalize_relative acc (s # ss) =
     (if s = ''.'' then normalize_relative acc ss
      else if s = ''..'' then
        (case acc of
           [] \<Rightarrow> normalize_relative [''..''] ss
         | a # as \<Rightarrow> if a = ''..'' then normalize_relative (''..'' # acc) ss
                     else normalize_relative as ss)
      else normalize_relative (s # acc) ss)"

definition path_normalize :: "string \<Rightarrow> string" where
  "path_normalize p =
     (if p = [] then ''.''
      else
        (let isAbs = path_isAbsolute p;
             trailing = (last p = CHR ''/'');
             body = join ''/'' (if isAbs then normalize_segments [] (path_segments p)
                                else normalize_relative [] (path_segments p))
         in if body = [] then (if isAbs then ''/'' else if trailing then ''./'' else ''.'')
            else (if isAbs then ''/'' else []) @ body @ (if trailing then ''/'' else [])))"

definition path_join :: "string \<Rightarrow> string \<Rightarrow> string" where
  "path_join a b =
     (let joined = (if a = [] then b else if b = [] then a else a @ ''/'' @ b)
      in if joined = [] then ''.'' else path_normalize joined)"

text \<open>The guard itself: \<open>isSubPath\<close> and \<open>isAllowed\<close>.\<close>

definition isSubPath :: "string \<Rightarrow> string \<Rightarrow> string \<Rightarrow> bool" where
  "isSubPath cwd child parent =
     (let rel = path_relative cwd parent child
      in rel \<noteq> [] \<and> \<not> startsWith rel ''..'' \<and> \<not> path_isAbsolute rel)"

definition isAllowed :: "string \<Rightarrow> string \<Rightarrow> string list \<Rightarrow> bool" where
  "isAllowed cwd p allowedRoots =
     (let abs = path_resolve cwd p
      in list_ex (\<lambda>root. abs = root \<or> isSubPath cwd abs root) allowedRoots)"

text \<open>
  The allow-lists are read once from the environment: the configured value (or the
  default root) split at commas, each entry trimmed and resolved.
\<close>

definition allow_roots :: "string \<Rightarrow> string option \<Rightarrow> string \<Rightarrow> string list" where
  "allow_roots cwd configured dflt =
     filter (\<lambda>p. p \<noteq> [])
       (map (\<lambda>p. path_resolve cwd (trim p))
          (split_on (CHR '','')
             (case configured of None \<Rightarrow> dflt | Some v \<Rightarrow> if v = [] then dflt else v)))"

section \<open>Credential store\<close>

text \<open>
  A plain JavaScript object with string values is the list of its own properties in
  creation order. \<open>obj_define\<close> is the definition of an own property (object spread),
  \<open>obj_assign\<close> is the assignment \<open>env[key] = val\<close>: on a plain object the key
  \<open>__proto__\<close> reaches the prototype setter, which ignores a string, so no property
  is stored. \<open>object_keys\<close> is \<open>Object.keys\<close>: the array indices (canonical decimal
  numerals below \<open>2^32 - 1\<close>) in ascending order, then the other keys in creation order.
\<close>

type_synonym obj = "(string \<times> string) list"

definition obj_get :: "obj \<Rightarrow> string \<Rightarrow> string option" where
  "obj_get env k = map_of env k"

fun obj_define :: "obj \<Rightarrow> string \<Rightarrow> string \<Rightarrow> obj" where
  "obj_define [] k v = [(k, v)]"
| "obj_define ((k', v') # kvs) k v =
     (if k' = k then (k, v) # kvs else (k', v') # obj_define kvs k v)"

definition obj_assign :: "obj \<Rightarrow> string \<Rightarrow> string \<Rightarrow> obj" where
  "obj_assign env k v = (if k = ''__proto__'' then env else obj_define env k v)"







text \<open>\<open>text.split(/\r?\n/)\<close>: the text is cut at every LF, and at CR LF as one separator.\<close>

fun split_lines :: "string \<Rightarrow> string list" where
  "split_lines [] = [[]]"
| "split_lines [c] = (if c = LF then [[], []] else [[c]])"
| "split_lines (c # d # cs) =
     (if c = LF then [] # split_lines (d # cs)
      else if c = CR \<and> d = LF then [] # split_lines cs
      else (case split_lines (d # cs) of
              [] \<Rightarrow> [[c]]
            | l # ls \<Rightarrow> (c # l) # ls))"

definition strip_quotes :: "string \<Rightarrow> string" where
  "strip_quotes val =
     (if (startsWith val [CHR 0x22] \<and> endsWith val [CHR 0x22])
         \<or> (startsWith val [CHR 0x27] \<and> endsWith val [CHR 0x27])
      then butlast (tl val) else val)"

definition parse_line :: "obj \<Rightarrow> string \<Rightarrow> obj" where
  "parse_line env line =
     (let trimmed = trim line
      in if trimmed = [] \<or> startsWith trimmed ''#'' then env
         else if CHR ''='' \<notin> set trimmed then env
         else (let key = trim (takeWhile (\<lambda>c. c \<noteq> CHR ''='') trimmed);
                   val = tl (dropWhile (\<lambda>c. c \<noteq> CHR ''='') trimmed)
               in obj_assign env key (strip_quotes val)))"

definition parseDotEnv :: "string \<Rightarrow> obj" where
  "parseDotEnv text = foldl parse_line [] (split_lines text)"


text \<open>
  The file system, as far as the store reads it: the text files by path and, for each
  directory that can be listed, its entries.
\<close>

record filesys =
  files :: "string \<rightharpoonup> string"
  dirs :: "string \<rightharpoonup> string list"

definition readCredsEnv :: "filesys \<Rightarrow> string \<Rightarrow> obj" where
  "readCredsEnv fs credsPath =
     (case files fs (path_join credsPath ''.env'') of
        None \<Rightarrow> []
      | Some txt \<Rightarrow> parseDotEnv txt)"


definition dirNonEmpty :: "filesys \<Rightarrow> string \<Rightarrow> bool" where
  "dirNonEmpty fs p = (case dirs fs p of None \<Rightarrow> False | Some ent \<Rightarrow> length ent > 0)"

text \<open>Readiness. \<open>has\<close> is the truthiness of \<open>env[k]\<close>: present and not the empty string.\<close>

datatype error =
    InvalidEngine
  | WorkspaceNotAbsolute
  | CredsNotAbsolute
  | WorkspaceNotAllowed
  | CredsNotAllowed
  | RuntimeError

record found =
  envKeys :: "string list"
  foundDirs :: "(string \<times> bool) list"
  vertexPossible :: "bool option"

record readiness =
  rd_engine :: string
  ready :: bool
  reasons :: "string list"
  found :: found

definition ENGINES :: "string list" where
  "ENGINES = [''codex'', ''gemini'', ''opencode'']"

definition has :: "obj \<Rightarrow> string \<Rightarrow> bool" where
  "has env k = (case obj_get env k of None \<Rightarrow> False | Some v \<Rightarrow> v \<noteq> [])"

definition existsDir :: "filesys \<Rightarrow> string \<Rightarrow> string \<Rightarrow> bool" where
  "existsDir fs credsPath sub = dirNonEmpty fs (path_join credsPath sub)"

definition checkReadiness ::
  "string \<Rightarrow> string list \<Rightarrow> filesys \<Rightarrow> string \<Rightarrow> string \<Rightarrow> error + (readiness \<times> obj)" where
  "checkReadiness cwd credsRoots fs eng credsPath =
     (if eng \<notin> set ENGINES then Inl InvalidEngine
      else if \<not> isAllowed cwd credsPath credsRoots then Inl CredsNotAllowed
      else
        (let env = readCredsEnv fs credsPath;
             keyIf = (\<lambda>k. if has env k then [k] else [])
         in if eng = ''codex'' then
              (let hasKey = has env ''OPENAI_API_KEY'';
                   hasDir = existsDir fs credsPath ''codex'';
                   rdy = (hasKey \<or> hasDir)
               in Inr (\<lparr>rd_engine = eng, ready = rdy,
                         reasons = (if \<not> rdy
                                    then [''Codex needs ChatGPT sign-in or OPENAI_API_KEY'']
                                    else []),
                         found = \<lparr>envKeys = keyIf ''OPENAI_API_KEY'',
                                   foundDirs = [(''codex'', hasDir)],
                                   vertexPossible = None\<rparr>\<rparr>, env))
            else if eng = ''gemini'' then
              (let hasKey = has env ''GEMINI_API_KEY'';
                   hasDir = existsDir fs credsPath ''gemini'';
                   hasGcloud = existsDir fs credsPath ''gcloud'';
                   rdy = (hasKey \<or> hasDir \<or> hasGcloud)
               in Inr (\<lparr>rd_engine = eng, ready = rdy,
                         reasons = (if \<not> rdy
                                    then [''Gemini needs API key, device login, or Vertex ADC'']
                                    else []),
                         found = \<lparr>envKeys = keyIf ''GEMINI_API_KEY'',
                                   foundDirs = [(''gemini'', hasDir), (''gcloud'', hasGcloud)],
                                   vertexPossible = Some hasGcloud\<rparr>\<rparr>, env))
            else
              (let ok = (has env ''OPENAI_API_KEY'' \<or> has env ''ANTHROPIC_API_KEY''
                         \<or> has env ''GEMINI_API_KEY'');
                   hasDir = existsDir fs credsPath ''opencode'';
                   rdy = (ok \<or> hasDir)
               in Inr (\<lparr>rd_engine = eng, ready = rdy,
                         reasons = (if \<not> rdy then [''OpenCode needs a provider API key'']
                                    else []),
                         found = \<lparr>envKeys =
                                     (if has env ''OPENAI_API_KEY'' then [''OPENAI_API_KEY'']
                                      else if has env ''ANTHROPIC_API_KEY''
                                      then [''ANTHROPIC_API_KEY'']
                                      else keyIf ''GEMINI_API_KEY''),
                                   foundDirs = [(''opencode'', hasDir)],
                                   vertexPossible = None\<rparr>\<rparr>, env))))"

section \<open>Container runtime\<close>

text \<open>
  The container runtime behind \<open>dockerode\<close>, as far as the orchestrator observes it:
  the containers (newest first) with identifier, name, state, labels and the auto-remove
  flag, whether the daemon answers, the counter behind fresh identifiers, and the
  commands executed inside containers. A request to an unreachable daemon, or about a
  container that does not exist, is rejected, and so is the creation of a container
  whose name is taken; the runtime never hands out an identifier that is in use. The
  callers that write \<open>.catch(() => {})\<close> go on with the runtime unchanged (\<open>quiet\<close>).
\<close>

fun string_of_nat :: "nat \<Rightarrow> string" where
  "string_of_nat n =
     (if n < 10 then [''0123456789'' ! n]
      else string_of_nat (n div 10) @ [''0123456789'' ! (n mod 10)])"

declare string_of_nat.simps [simp del]

record container =
  c_Id :: string
  c_Name :: string
  c_State :: string
  c_Labels :: "(string \<times> string) list"
  c_AutoRemove :: bool

record docker =
  containers :: "container list"
  daemon_up :: bool
  next_id :: nat
  execs :: "(string \<times> string list) list"

definition label_matches :: "(string \<times> string) list \<Rightarrow> string \<Rightarrow> bool" where
  "label_matches labels f =
     (let k = takeWhile (\<lambda>c. c \<noteq> CHR ''='') f
      in if CHR ''='' \<in> set f
         then map_of labels k = Some (tl (dropWhile (\<lambda>c. c \<noteq> CHR ''='') f))
         else map_of labels k \<noteq> None)"

definition listContainers :: "docker \<Rightarrow> string list \<Rightarrow> error + container list" where
  "listContainers d label_filters =
     (if daemon_up d
      then Inr (filter (\<lambda>c. list_all (label_matches (c_Labels c)) label_filters)
                       (containers d))
      else Inl RuntimeError)"

definition inspect :: "docker \<Rightarrow> string \<Rightarrow> container option" where
  "inspect d cid =
     (if daemon_up d then find (\<lambda>c. c_Id c = cid) (containers d) else None)"

definition set_state :: "docker \<Rightarrow> string \<Rightarrow> string \<Rightarrow> docker" where
  "set_state d cid st =
     d\<lparr>containers := map (\<lambda>c. if c_Id c = cid then c\<lparr>c_State := st\<rparr> else c)
                            (containers d)\<rparr>"

definition container_stop :: "docker \<Rightarrow> string \<Rightarrow> docker option" where
  "container_stop d cid =
     (case inspect d cid of
        None \<Rightarrow> None
      | Some c \<Rightarrow> if c_State c = ''running'' then Some (set_state d cid ''exited'')
                  else None)"

definition container_kill :: "docker \<Rightarrow> string \<Rightarrow> docker option" where
  "container_kill d cid =
     (case inspect d cid of
        None \<Rightarrow> None
      | Some c \<Rightarrow> if c_State c = ''running'' then Some (set_state d cid ''exited'')
                  else None)"

definition container_remove :: "docker \<Rightarrow> string \<Rightarrow> docker option" where
  "container_remove d cid =
     (case inspect d cid of
        None \<Rightarrow> None
      | Some c \<Rightarrow> Some (d\<lparr>containers := filter (\<lambda>c. c_Id c \<noteq> cid) (containers d)\<rparr>))"

definition container_exec :: "docker \<Rightarrow> string \<Rightarrow> string list \<Rightarrow> docker option" where
  "container_exec d cid cmd =
     (case inspect d cid of
        None \<Rightarrow> None
      | Some c \<Rightarrow> if c_State c = ''running''
                  then Some (d\<lparr>execs := execs d @ [(cid, cmd)]\<rparr>)
                  else None)"

definition quiet :: "docker \<Rightarrow> docker option \<Rightarrow> docker" where
  "quiet d r = (case r of None \<Rightarrow> d | Some d' \<Rightarrow> d')"

definition createContainer ::
  "docker \<Rightarrow> string \<Rightarrow> (string \<times> string) list \<Rightarrow> bool \<Rightarrow> error + (docker \<times> string)" where
  "createContainer d name labels autoRemove =
     (let cid = string_of_nat (next_id d)
      in if \<not> daemon_up d \<or> name \<in> set (map c_Name (containers d))
            \<or> cid \<in> set (map c_Id (containers d))
         then Inl RuntimeError
         else Inr (d\<lparr>containers :=
                      \<lparr>c_Id = cid, c_Name = name, c_State = ''created'',
                       c_Labels = labels, c_AutoRemove = autoRemove\<rparr> # containers d,
                    next_id := Suc (next_id d)\<rparr>, cid))"

definition container_start :: "docker \<Rightarrow> string \<Rightarrow> error + docker" where
  "container_start d cid =
     (case inspect d cid of
        None \<Rightarrow> Inl RuntimeError
      | Some c \<Rightarrow> Inr (set_state d cid ''running''))"

text \<open>
  What the runtime does by itself: the process of a container ends, and the daemon
  removes the stopped containers that were created with \<open>AutoRemove\<close>.
\<close>

definition container_exits :: "docker \<Rightarrow> string \<Rightarrow> docker" where
  "container_exits d cid =
     d\<lparr>containers := map (\<lambda>c. if c_Id c = cid \<and> c_State c = ''running''
                                 then c\<lparr>c_State := ''exited''\<rparr> else c)
                            (containers d)\<rparr>"

definition daemon_autoremove :: "docker \<Rightarrow> docker" where
  "daemon_autoremove d =
     d\<lparr>containers := filter (\<lambda>c. \<not> (c_AutoRemove c \<and> c_State c = ''exited''))
                               (containers d)\<rparr>"

section \<open>Warm pool\<close>

record fingerprint =
  engine :: string
  workspace :: string
  creds :: string
  readOnly :: bool
  uidgid :: "string option"

definition uidgid_or_empty :: "string option \<Rightarrow> string" where
  "uidgid_or_empty u = (case u of None \<Rightarrow> [] | Some v \<Rightarrow> v)"

definition labelsForWarm :: "'a fingerprint_scheme \<Rightarrow> (string \<times> string) list" where
  "labelsForWarm fp =
     [(''adz.warm'', ''true''),
      (''adz.engine'', engine fp),
      (''adz.workspace'', workspace fp),
      (''adz.creds'', creds fp),
      (''adz.readonly'', if readOnly fp then ''1'' else ''0''),
      (''adz.uidgid'', uidgid_or_empty (uidgid fp))]"

definition findWarmContainer :: "docker \<Rightarrow> 'a fingerprint_scheme \<Rightarrow> error + container option" where
  "findWarmContainer d fp =
     (case listContainers d
             [''adz.warm=true'',
              ''adz.engine='' @ engine fp,
              ''adz.workspace='' @ workspace fp,
              ''adz.creds='' @ creds fp,
              ''adz.readonly='' @ (if readOnly fp then ''1'' else ''0''),
              ''adz.uidgid='' @ uidgid_or_empty (uidgid fp)] of
        Inl e \<Rightarrow> Inl e
      | Inr list \<Rightarrow> Inr (find (\<lambda>c. c_State c = ''running'') list))"

definition ensureWarmContainer ::
  "docker \<Rightarrow> 'a fingerprint_scheme \<Rightarrow> string \<Rightarrow> error + (docker \<times> string \<times> string)" where
  "ensureWarmContainer d fp fileTs =
     (case findWarmContainer d fp of
        Inl e \<Rightarrow> Inl e
      | Inr (Some existing) \<Rightarrow>
          Inr (d, c_Id existing,
               if c_Name existing \<noteq> [] then c_Name existing else take 12 (c_Id existing))
      | Inr None \<Rightarrow>
          (let name = ''adz-warm-'' @ engine fp @ ''-'' @ fileTs
           in case createContainer d name (labelsForWarm fp) False of
                Inl e \<Rightarrow> Inl e
              | Inr (d1, cid) \<Rightarrow>
                  (case container_start d1 cid of
                     Inl e \<Rightarrow> Inl e
                   | Inr d2 \<Rightarrow> Inr (d2, cid, name))))"

section \<open>Run orchestrator\<close>

text \<open>
  A run object is shared between the registry \<open>runs\<close> and the handlers registered on
  its stream, which keep it after \<open>runs.delete\<close>. The objects therefore live in
  \<open>heap\<close>, addressed by their run id (the field \<open>id\<close> of a run is its address; the
  ids that \<open>uuidv4\<close> hands out are taken to be new), and \<open>runs\<close> holds the keys of
  the registry map in insertion order. \<open>events\<close> is what \<open>eventsBroadcast\<close> has sent
  about the life cycle of runs, \<open>out\<close> the text written to each HTTP response,
  \<open>ended\<close> the responses that were ended, \<open>stdin\<close> what was written to each attach
  stream, \<open>destroyed\<close> the attach streams that were destroyed. Writing to a response or
  to a stream does not throw. Of a container the model keeps what the orchestrator reads
  back (identifier, name, state, labels, auto-remove); the artifact and warning events
  that the pump derives from the output go to the event clients only and are left out.
\<close>

record run =
  run_engine :: string
  run_workspace :: string
  run_creds :: string
  containerId :: string
  containerName :: string
  status :: string
  transcriptPath :: string
  listeners :: "nat list"
  isExec :: bool
  lastActivityAt :: int

record lifecycle_event =
  ev_name :: string
  ev_runId :: string
  ev_warm :: bool

record state =
  runs :: "string list"
  heap :: "string \<rightharpoonup> run"
  dock :: docker
  events :: "lifecycle_event list"
  out :: "nat \<Rightarrow> string"
  ended :: "nat set"
  stdin :: "string \<Rightarrow> string"
  destroyed :: "string set"
  fsys :: filesys

record config =
  cwd :: string
  ALLOW_WORKSPACE_ROOTS :: "string list"
  ALLOW_CREDS_ROOTS :: "string list"
  IDLE_TIMEOUT_SEC :: nat

datatype response =
    NotFound
  | Removed
  | Fallback bool
  | StoppedAll nat bool
  | KilledAll nat bool
  | EventStream
  | Failed error

definition runs_get :: "state \<Rightarrow> string \<Rightarrow> run option" where
  "runs_get s rid = (if rid \<in> set (runs s) then heap s rid else None)"

definition runs_set :: "state \<Rightarrow> string \<Rightarrow> run \<Rightarrow> state" where
  "runs_set s rid r =
     s\<lparr>runs := (if rid \<in> set (runs s) then runs s else runs s @ [rid]),
       heap := (heap s)(rid \<mapsto> r)\<rparr>"

definition runs_delete :: "state \<Rightarrow> string \<Rightarrow> state" where
  "runs_delete s rid = s\<lparr>runs := removeAll rid (runs s)\<rparr>"

definition upd_run :: "state \<Rightarrow> string \<Rightarrow> (run \<Rightarrow> run) \<Rightarrow> state" where
  "upd_run s rid f = s\<lparr>heap := (heap s)(rid := map_option f (heap s rid))\<rparr>"

definition eventsBroadcast :: "state \<Rightarrow> string \<Rightarrow> string \<Rightarrow> bool \<Rightarrow> state" where
  "eventsBroadcast s name rid warm =
     s\<lparr>events := events s @ [\<lparr>ev_name = name, ev_runId = rid, ev_warm = warm\<rparr>]\<rparr>"

definition res_write :: "state \<Rightarrow> nat \<Rightarrow> string \<Rightarrow> state" where
  "res_write s res txt = s\<lparr>out := (out s)(res := out s res @ txt)\<rparr>"

definition res_end :: "state \<Rightarrow> nat \<Rightarrow> state" where
  "res_end s res = s\<lparr>ended := insert res (ended s)\<rparr>"

definition stream_write :: "state \<Rightarrow> string \<Rightarrow> string \<Rightarrow> state" where
  "stream_write s rid txt = s\<lparr>stdin := (stdin s)(rid := stdin s rid @ txt)\<rparr>"

definition sseSend :: "state \<Rightarrow> nat \<Rightarrow> string \<Rightarrow> state" where
  "sseSend s res txt =
     res_write
       (foldl (\<lambda>s' l. res_write s' res (''data: '' @ l @ [LF])) s (split_on LF txt))
       res [LF]"

definition end_listeners :: "state \<Rightarrow> string \<Rightarrow> state" where
  "end_listeners s rid =
     (case heap s rid of
        None \<Rightarrow> s
      | Some r \<Rightarrow> upd_run (foldl res_end s (listeners r)) rid (\<lambda>r. r\<lparr>listeners := []\<rparr>))"

definition notify_end_listeners :: "state \<Rightarrow> string \<Rightarrow> string \<Rightarrow> state" where
  "notify_end_listeners s rid msg =
     (case heap s rid of
        None \<Rightarrow> s
      | Some r \<Rightarrow> upd_run (foldl (\<lambda>s' res. res_end (sseSend s' res msg) res) s (listeners r))
                          rid (\<lambda>r. r\<lparr>listeners := []\<rparr>))"

text \<open>Starting a run.\<close>

record start_req = fingerprint +
  preferWarm :: bool
  argv :: "string list"

record inputs =
  uuid :: string
  fileTs :: string
  now :: int

definition ensureDir :: "filesys \<Rightarrow> string \<Rightarrow> filesys" where
  "ensureDir fs p = (case dirs fs p of None \<Rightarrow> fs\<lparr>dirs := (dirs fs)(p \<mapsto> [])\<rparr> | Some _ \<Rightarrow> fs)"

definition appendFile :: "filesys \<Rightarrow> string \<Rightarrow> string \<Rightarrow> filesys" where
  "appendFile fs p txt =
     fs\<lparr>files := (files fs)(p \<mapsto> (case files fs p of None \<Rightarrow> [] | Some old \<Rightarrow> old) @ txt)\<rparr>"

definition startRun ::
  "config \<Rightarrow> state \<Rightarrow> start_req \<Rightarrow> inputs \<Rightarrow> state \<times> (error + string \<times> string)" where
  "startRun cfg s req inp =
     (if engine req \<notin> set ENGINES then (s, Inl InvalidEngine)
      else if \<not> path_isAbsolute (workspace req) then (s, Inl WorkspaceNotAbsolute)
      else if \<not> path_isAbsolute (creds req) then (s, Inl CredsNotAbsolute)
      else if \<not> isAllowed (cwd cfg) (workspace req) (ALLOW_WORKSPACE_ROOTS cfg)
        then (s, Inl WorkspaceNotAllowed)
      else if \<not> isAllowed (cwd cfg) (creds req) (ALLOW_CREDS_ROOTS cfg)
        then (s, Inl CredsNotAllowed)
      else
        (let runsDir = path_join (workspace req) ''.runs'';
             tpath = path_join runsDir (engine req @ ''-'' @ fileTs inp @ ''.log'');
             s1 = s\<lparr>fsys := appendFile (ensureDir (fsys s) runsDir) tpath []\<rparr>;
             runId = uuid inp;
             name = ''adz-'' @ engine req @ ''-'' @ fileTs inp @ ''-'' @ take 8 runId;
             mk = (\<lambda>cid cname ex.
                     \<lparr>run_engine = engine req,
                      run_workspace = workspace req, run_creds = creds req,
                      containerId = cid, containerName = cname, status = ''running'',
                      transcriptPath = tpath, listeners = [], isExec = ex,
                      lastActivityAt = now inp\<rparr>)
         in case (if preferWarm req then findWarmContainer (dock s1) req else Inr None) of
              Inl e \<Rightarrow> (s1, Inl e)
            | Inr (Some warm) \<Rightarrow>
                (case container_exec (dock s1) (c_Id warm) (''/entrypoint.sh'' # argv req) of
                   None \<Rightarrow> (s1, Inl RuntimeError)
                 | Some d1 \<Rightarrow>
                     (let r = mk (c_Id warm) (take 12 (c_Id warm)) True
                      in (eventsBroadcast (runs_set (s1\<lparr>dock := d1\<rparr>) runId r)
                            ''run-started'' runId True,
                          Inr (runId, containerName r))))
            | Inr None \<Rightarrow>
                (case createContainer (dock s1) name
                        [(''adz.engine'', engine req), (''adz.workspace'', workspace req),
                         (''adz.creds'', creds req), (''adz.runId'', runId)] True of
                   Inl e \<Rightarrow> (s1, Inl e)
                 | Inr (d1, cid) \<Rightarrow>
                     (case container_start d1 cid of
                        Inl e \<Rightarrow> (s1\<lparr>dock := d1\<rparr>, Inl e)
                      | Inr d2 \<Rightarrow>
                          (eventsBroadcast (runs_set (s1\<lparr>dock := d2\<rparr>) runId (mk cid name False))
                             ''run-started'' runId False,
                           Inr (runId, name))))))"




text \<open>
  The end of a run: the \<open>end\<close> handler of a warm-exec stream, and the continuation of
  \<open>container.wait()\<close> of a fresh run, which gives up when \<open>inspect\<close> is rejected.
\<close>

definition on_stream_end :: "state \<Rightarrow> string \<Rightarrow> state" where
  "on_stream_end s rid =
     (case heap s rid of
        None \<Rightarrow> s
      | Some r \<Rightarrow>
          if \<not> isExec r then s
          else (let s1 = upd_run s rid (\<lambda>r. r\<lparr>status := ''exited''\<rparr>);
                    s2 = notify_end_listeners s1 rid
                           ([LF] @ ''[[PROCESS EXITED]] status=exited'')
                in eventsBroadcast s2 ''run-exited'' rid True))"

definition resolveStatus :: "docker \<Rightarrow> string \<Rightarrow> string option" where
  "resolveStatus d cid =
     (case inspect d cid of
        None \<Rightarrow> None
      | Some info \<Rightarrow>
          Some (if c_State info = ''running'' then ''running''
                else if c_State info = [] then ''exited'' else c_State info))"

definition on_container_wait :: "state \<Rightarrow> string \<Rightarrow> state" where
  "on_container_wait s rid =
     (case heap s rid of
        None \<Rightarrow> s
      | Some r \<Rightarrow>
          if isExec r then s
          else (case resolveStatus (dock s) (containerId r) of
                  None \<Rightarrow> s
                | Some st \<Rightarrow>
                    (let s1 = upd_run s rid (\<lambda>r. r\<lparr>status := st\<rparr>);
                         s2 = notify_end_listeners s1 rid
                                ([LF] @ ''[[PROCESS EXITED]] status='' @ st)
                     in eventsBroadcast s2 ''run-exited'' rid False)))"

text \<open>Stop, kill and close, with the clean-up by label for a run id the registry lacks.\<close>

definition fallback_cleanup ::
  "(docker \<Rightarrow> string \<Rightarrow> docker option) \<Rightarrow> state \<Rightarrow> string \<Rightarrow> state \<times> response" where
  "fallback_cleanup halt s rid =
     (case listContainers (dock s) [''adz.runId='' @ rid] of
        Inl _ \<Rightarrow> (s, NotFound)
      | Inr list \<Rightarrow>
          (s\<lparr>dock := foldl (\<lambda>d c. (let d1 = quiet d (halt d (c_Id c))
                                       in quiet d1 (container_remove d1 (c_Id c))))
                             (dock s) list\<rparr>,
           Fallback (length list > 0)))"

definition stop_run :: "state \<Rightarrow> string \<Rightarrow> state \<times> response" where
  "stop_run s rid =
     (case runs_get s rid of
        None \<Rightarrow> fallback_cleanup container_stop s rid
      | Some r \<Rightarrow>
          if isExec r then
            (let s1 = stream_write s rid [CHR 0x03];
                 s2 = stream_write s1 rid (''exit'' @ [LF]);
                 s3 = upd_run s2 rid (\<lambda>r. r\<lparr>status := ''stopped''\<rparr>);
                 s4 = eventsBroadcast s3 ''run-stopped'' rid True;
                 s5 = end_listeners s4 rid
             in (runs_delete s5 rid, Removed))
          else
            (let d1 = quiet (dock s) (container_stop (dock s) (containerId r));
                 d2 = quiet d1 (container_remove d1 (containerId r));
                 s3 = upd_run (s\<lparr>dock := d2\<rparr>) rid (\<lambda>r. r\<lparr>status := ''stopped''\<rparr>);
                 s4 = eventsBroadcast s3 ''run-stopped'' rid False;
                 s5 = end_listeners s4 rid
             in (runs_delete s5 rid, Removed)))"

definition kill_run :: "state \<Rightarrow> string \<Rightarrow> state \<times> response" where
  "kill_run s rid =
     (case runs_get s rid of
        None \<Rightarrow> fallback_cleanup container_kill s rid
      | Some r \<Rightarrow>
          if isExec r then
            (let d1 = quiet (dock s)
                        (container_exec (dock s) (containerId r)
                           [''bash'', ''-lc'',
                            ''pkill -9 -f '' @ [CHR 0x27] @ ''^(codex|gemini|opencode)$''
                              @ [CHR 0x27] @ '' || true'']);
                 s3 = upd_run (s\<lparr>dock := d1\<rparr>) rid (\<lambda>r. r\<lparr>status := ''killed''\<rparr>);
                 s4 = eventsBroadcast s3 ''run-killed'' rid True;
                 s5 = end_listeners s4 rid
             in (runs_delete s5 rid, Removed))
          else
            (let d1 = quiet (dock s) (container_kill (dock s) (containerId r));
                 d2 = quiet d1 (container_remove d1 (containerId r));
                 s3 = upd_run (s\<lparr>dock := d2\<rparr>) rid (\<lambda>r. r\<lparr>status := ''killed''\<rparr>);
                 s4 = eventsBroadcast s3 ''run-killed'' rid False;
                 s5 = end_listeners s4 rid
             in (runs_delete s5 rid, Removed)))"

definition close_run :: "state \<Rightarrow> string \<Rightarrow> state \<times> response" where
  "close_run s rid =
     (case runs_get s rid of
        None \<Rightarrow> fallback_cleanup container_kill s rid
      | Some r \<Rightarrow>
          (let s1 =
                 (if isExec r then
                    (let s0 = s\<lparr>destroyed := insert rid (destroyed s)\<rparr>
                     in s0\<lparr>dock := quiet (dock s0)
                                (container_exec (dock s0) (containerId r)
                                   [''bash'', ''-lc'',
                                    ''pkill -KILL -f '' @ [CHR 0x22]
                                      @ ''(/entrypoint.sh|codex|gemini|opencode)''
                                      @ [CHR 0x22] @ '' || true''])\<rparr>)
                  else
                    (let d1 = quiet (dock s) (container_kill (dock s) (containerId r))
                     in s\<lparr>dock := quiet d1 (container_remove d1 (containerId r))\<rparr>));
               s2 = end_listeners s1 rid;
               s3 = runs_delete s2 rid
           in (eventsBroadcast s3 ''run-closed'' rid (isExec r), Removed)))"








text \<open>The idle reaper: \<open>autoStopRun\<close> and the sweep that \<open>setInterval\<close> runs.\<close>

definition autoStopRun :: "config \<Rightarrow> state \<Rightarrow> string \<Rightarrow> state" where
  "autoStopRun cfg s rid =
     (case heap s rid of
        None \<Rightarrow> s
      | Some r \<Rightarrow>
          (let msg = [LF] @ ''[[AUTO-STOP]] idle timeout exceeded (''
                       @ string_of_nat (IDLE_TIMEOUT_SEC cfg) @ ''s). Stopping run.'' @ [LF];
               s1 = s\<lparr>fsys := appendFile (fsys s) (transcriptPath r) msg\<rparr>;
               s2 = notify_end_listeners s1 rid msg
           in if isExec r then
                (let s3 = stream_write s2 rid [CHR 0x03];
                     s4 = stream_write s3 rid (''exit'' @ [LF]);
                     s5 = upd_run s4 rid (\<lambda>r. r\<lparr>status := ''stopped''\<rparr>)
                 in eventsBroadcast s5 ''run-idle-stopped'' rid True)
              else
                (let d1 = quiet (dock s2) (container_stop (dock s2) (containerId r));
                     d2 = quiet d1 (container_remove d1 (containerId r));
                     s5 = upd_run (s2\<lparr>dock := d2\<rparr>) rid (\<lambda>r. r\<lparr>status := ''stopped''\<rparr>)
                 in eventsBroadcast s5 ''run-idle-stopped'' rid False)))"

definition idle_sweep :: "config \<Rightarrow> state \<Rightarrow> int \<Rightarrow> state" where
  "idle_sweep cfg s t =
     (if IDLE_TIMEOUT_SEC cfg > 0 then
        foldl (\<lambda>s' rid.
                 case heap s' rid of
                   None \<Rightarrow> s'
                 | Some r \<Rightarrow>
                     if status r \<noteq> ''running'' then s'
                     else if lastActivityAt r = 0 then s'
                     else if t - lastActivityAt r \<ge> 1000 * int (IDLE_TIMEOUT_SEC cfg)
                     then autoStopRun cfg s' rid
                     else s')
              s (runs s)
      else s)"









section \<open>A small deployment\<close>

text \<open>
  One configuration and a few states reached from the empty orchestrator, used to run
  the handlers on concrete inputs.
\<close>

definition cfg0 :: config where
  "cfg0 = \<lparr>cwd = ''/srv'', ALLOW_WORKSPACE_ROOTS = [''/tmp/ws''],
           ALLOW_CREDS_ROOTS = [''/tmp/cr''], IDLE_TIMEOUT_SEC = 900\<rparr>"

definition init_state :: state where
  "init_state =
     \<lparr>runs = [], heap = Map.empty,
      dock = \<lparr>containers = [], daemon_up = True, next_id = 0, execs = []\<rparr>,
      events = [], out = (\<lambda>_. []), ended = {}, stdin = (\<lambda>_. []), destroyed = {},
      fsys = \<lparr>files = Map.empty, dirs = Map.empty\<rparr>\<rparr>"

definition req0 :: start_req where
  "req0 = \<lparr>engine = ''codex'', workspace = ''/tmp/ws'', creds = ''/tmp/cr'',
           readOnly = True, uidgid = None, preferWarm = True, argv = []\<rparr>"

definition fresh_state :: state where
  "fresh_state = fst (startRun cfg0 init_state req0 \<lparr>uuid = ''r1'', fileTs = ''T1'', now = 1000\<rparr>)"

definition warm_state :: state where
  "warm_state =
     (case ensureWarmContainer (dock init_state) req0 ''T0'' of
        Inl _ \<Rightarrow> init_state
      | Inr (d, _) \<Rightarrow>
          fst (startRun cfg0 (init_state\<lparr>dock := d\<rparr>) req0
                 \<lparr>uuid = ''r2'', fileTs = ''T2'', now = 2000\<rparr>))"

definition ended_state :: state where
  "ended_state = on_stream_end warm_state ''r2''"

definition halted_state :: state where
  "halted_state = fresh_state\<lparr>dock := container_exits (dock fresh_state) ''0''\<rparr>"

definition removed_state :: state where
  "removed_state = halted_state\<lparr>dock := daemon_autoremove (dock halted_state)\<rparr>"

definition orphan_state :: state where
  "orphan_state = init_state\<lparr>dock := dock fresh_state\<rparr>"

definition down_state :: state where
  "down_state = orphan_state\<lparr>dock := (dock orphan_state)\<lparr>daemon_up := False\<rparr>\<rparr>"

text \<open>
  One round of the clean-up by label, and what it keeps of a container: the identifier
  and the labels.
\<close>

definition cleanup_step ::
  "(docker \<Rightarrow> string \<Rightarrow> docker option) \<Rightarrow> docker \<Rightarrow> container \<Rightarrow> docker" where
  "cleanup_step halt d c =
     (let d1 = quiet d (halt d (c_Id c)) in quiet d1 (container_remove d1 (c_Id c)))"

definition id_labels :: "docker \<Rightarrow> (string \<times> (string \<times> string) list) list" where
  "id_labels d = map (\<lambda>c. (c_Id c, c_Labels c)) (containers d)"

definition warm_pool :: docker where
  "warm_pool =
     (case ensureWarmContainer (dock init_state) req0 ''T0'' of
        Inl _ \<Rightarrow> dock init_state
      | Inr (d, _) \<Rightarrow> d)"

definition creds_fs :: filesys where
  "creds_fs =
     \<lparr>files = [''/tmp/cr/.env'' \<mapsto> ''OPENAI_API_KEY='' @ [LF] @ ''GEMINI_API_KEY=g-1'' @ [LF]],
      dirs = [''/tmp/cr/opencode'' \<mapsto> [''auth.json''], ''/tmp/cr/codex'' \<mapsto> []]\<rparr>"

section \<open>The readiness rules in the words of the specification\<close>

text \<open>
  A key is set when the credentials file gives it a value other than the empty string; a
  sub-directory is non-empty when it can be listed and has an entry.
\<close>

definition spec_key_set :: "filesys \<Rightarrow> string \<Rightarrow> string \<Rightarrow> bool" where
  "spec_key_set fs credsPath k =
     (obj_get (readCredsEnv fs credsPath) k \<noteq> None
      \<and> obj_get (readCredsEnv fs credsPath) k \<noteq> Some [])"

definition spec_subdir_non_empty :: "filesys \<Rightarrow> string \<Rightarrow> string \<Rightarrow> bool" where
  "spec_subdir_non_empty fs credsPath sub =
     (dirs fs (path_join credsPath sub) \<noteq> None
      \<and> dirs fs (path_join credsPath sub) \<noteq> Some [])"

definition spec_ready :: "filesys \<Rightarrow> string \<Rightarrow> string \<Rightarrow> bool" where
  "spec_ready fs credsPath eng =
     (if eng = ''codex'' then
        spec_key_set fs credsPath ''OPENAI_API_KEY'' \<or> spec_subdir_non_empty fs credsPath ''codex''
      else if eng = ''gemini'' then
        spec_key_set fs credsPath ''GEMINI_API_KEY'' \<or> spec_subdir_non_empty fs credsPath ''gemini''
        \<or> spec_subdir_non_empty fs credsPath ''gcloud''
      else if eng = ''opencode'' then
        spec_key_set fs credsPath ''OPENAI_API_KEY'' \<or> spec_key_set fs credsPath ''ANTHROPIC_API_KEY''
        \<or> spec_key_set fs credsPath ''GEMINI_API_KEY''
        \<or> spec_subdir_non_empty fs credsPath ''opencode''
      else False)"

section \<open>Fingerprints as the warm pool compares them\<close>

text \<open>
  Two requests have the same raw fields when engine, workspace, creds, readOnly and
  uidgid (a missing one being the empty string) agree as given. \<open>warm_filter\<close> is
  the label filter of \<open>findWarmContainer\<close>, applied to one container.
\<close>

definition same_raw_fields :: "'a fingerprint_scheme \<Rightarrow> 'b fingerprint_scheme \<Rightarrow> bool" where
  "same_raw_fields fp fp' =
     (engine fp = engine fp' \<and> workspace fp = workspace fp' \<and> creds fp = creds fp'
      \<and> readOnly fp = readOnly fp'
      \<and> uidgid_or_empty (uidgid fp) = uidgid_or_empty (uidgid fp'))"

definition warm_filter :: "'a fingerprint_scheme \<Rightarrow> container \<Rightarrow> bool" where
  "warm_filter fp c =
     list_all (label_matches (c_Labels c))
       [''adz.warm=true'',
        ''adz.engine='' @ engine fp,
        ''adz.workspace='' @ workspace fp,
        ''adz.creds='' @ creds fp,
        ''adz.readonly='' @ (if readOnly fp then ''1'' else ''0''),
        ''adz.uidgid='' @ uidgid_or_empty (uidgid fp)]"

section \<open>The text of the log stream\<close>







section \<open>Entries that survive the credentials file\<close>










section \<open>Properties of the string helpers\<close>


lemma split_on_no_sep: "l \<in> set (split_on c t) \<Longrightarrow> c \<notin> set l"
  by (induction t arbitrary: l) (auto split: list.splits if_splits)



section \<open>Properties of the path guard\<close>

lemmas path_defs = isAllowed_def isSubPath_def path_relative_def path_resolve_def
  resolved_segments_def path_segments_def path_isAbsolute_def startsWith_def

lemma isAllowed_sibling_rejected:
  "isAllowed wd ''/a/bc'' [''/a/b''] = False"
  by (simp add: path_defs)

lemma drop_common_split:
  "drop_common xs ys = (fs, ts) \<Longrightarrow>
   \<exists>c. xs = c @ fs \<and> ys = c @ ts \<and> (fs = [] \<or> ts = [] \<or> hd fs \<noteq> hd ts)"
proof (induction xs ys arbitrary: fs ts rule: drop_common.induct)
  case (1 x xs y ys)
  show ?case
  proof (cases "x = y")
    case True
    with 1 obtain c where "xs = c @ fs \<and> ys = c @ ts \<and> (fs = [] \<or> ts = [] \<or> hd fs \<noteq> hd ts)"
      by fastforce
    with True show ?thesis by (intro exI[of _ "x # c"]) simp
  next
    case False
    with 1 show ?thesis by (intro exI[of _ "[]"]) auto
  qed
qed auto

lemma join_head: "join sep (x # xs) = x @ (if xs = [] then [] else sep @ join sep xs)"
  by (cases xs) auto

lemma normalize_segments_keeps:
  "\<forall>s \<in> set acc. Q s \<Longrightarrow> \<forall>s \<in> set ss. Q s \<Longrightarrow>
   \<forall>s \<in> set (normalize_segments acc ss). Q s"
proof (induction acc ss rule: normalize_segments.induct)
  case (1 acc)
  then show ?case by simp
next
  case (2 acc s ss)
  have "\<forall>s \<in> set (tl acc). Q s" using 2(4) by (cases acc) auto
  with 2 show ?case by auto
qed

lemma resolved_segments_clean:
  assumes "s \<in> set (resolved_segments wd p)"
  shows "s \<noteq> []" and "CHR ''/'' \<notin> set s"
proof -
  let ?ss = "path_segments (if path_isAbsolute p then p else wd @ ''/'' @ p)"
  have "\<forall>s \<in> set ?ss. s \<noteq> [] \<and> CHR ''/'' \<notin> set s"
    by (auto simp: path_segments_def dest: split_on_no_sep)
  then have "\<forall>s \<in> set (normalize_segments [] ?ss). s \<noteq> [] \<and> CHR ''/'' \<notin> set s"
    by (intro normalize_segments_keeps) simp_all
  with assms show "s \<noteq> []" and "CHR ''/'' \<notin> set s"
    by (simp_all add: resolved_segments_def)
qed

lemma startsWith_dots_join:
  assumes "t \<noteq> []" and "CHR ''/'' \<notin> set t"
  shows "startsWith (join ''/'' (t # ts)) ''..'' = startsWith t ''..''"
proof (cases t)
  case Nil
  with assms show ?thesis by simp
next
  case (Cons a t')
  show ?thesis
  proof (cases t')
    case Nil
    with Cons show ?thesis by (cases ts) (auto simp: startsWith_def join_head)
  next
    case (Cons b t'')
    with \<open>t = a # t'\<close> show ?thesis by (simp add: startsWith_def join_head)
  qed
qed

text \<open>
  What \<open>isSubPath\<close> decides: the segments of the child are those of the parent followed
  by at least one more, the first of which does not begin with two dots.
\<close>

lemma isSubPath_iff:
  "isSubPath wd child parent
     = (\<exists>ts. resolved_segments wd child = resolved_segments wd parent @ ts
             \<and> ts \<noteq> [] \<and> \<not> startsWith (hd ts) ''..'')"
proof -
  let ?P = "resolved_segments wd parent" and ?C = "resolved_segments wd child"
  obtain fs ts where dc: "drop_common ?P ?C = (fs, ts)" by (cases "drop_common ?P ?C")
  from drop_common_split[OF dc] obtain c where c: "?P = c @ fs" "?C = c @ ts"
    and diff: "fs = [] \<or> ts = [] \<or> hd fs \<noteq> hd ts" by blast
  have rel: "path_relative wd parent child = join ''/'' (map (\<lambda>_. ''..'') fs @ ts)"
    by (simp add: path_relative_def dc)
  show ?thesis
  proof (cases fs)
    case Nil
    then have PC: "?C = ?P @ ts" using c by simp
    show ?thesis
    proof (cases ts)
      case Nil
      with \<open>fs = []\<close> PC rel show ?thesis by (simp add: isSubPath_def)
    next
      case (Cons t ts')
      have "t \<in> set ?C" using PC Cons by simp
      then have tne: "t \<noteq> []" and tns: "CHR ''/'' \<notin> set t"
        by (rule resolved_segments_clean)+
      have r: "path_relative wd parent child = join ''/'' (t # ts')"
        using rel \<open>fs = []\<close> Cons by simp
      have r1: "path_relative wd parent child \<noteq> []" using tne by (simp add: r join_head)
      have r2: "\<not> path_isAbsolute (path_relative wd parent child)"
        using tne tns by (cases t) (auto simp: r join_head path_isAbsolute_def)
      have r3: "startsWith (path_relative wd parent child) ''..'' = startsWith t ''..''"
        unfolding r using tne tns by (rule startsWith_dots_join)
      have "isSubPath wd child parent = (\<not> startsWith t ''..'')"
        using r1 r2 r3 by (simp add: isSubPath_def Let_def)
      also have "\<dots> = (\<exists>ts. ?C = ?P @ ts \<and> ts \<noteq> [] \<and> \<not> startsWith (hd ts) ''..'')"
        using PC Cons by auto
      finally show ?thesis .
    qed
  next
    case (Cons f fs')
    then have "startsWith (path_relative wd parent child) ''..''"
      by (simp add: rel join_head startsWith_def)
    then have no: "\<not> isSubPath wd child parent" by (simp add: isSubPath_def Let_def)
    have "\<not> (\<exists>ts'. ?C = ?P @ ts' \<and> ts' \<noteq> [] \<and> \<not> startsWith (hd ts') ''..'')"
    proof
      assume "\<exists>ts'. ?C = ?P @ ts' \<and> ts' \<noteq> [] \<and> \<not> startsWith (hd ts') ''..''"
      then obtain ts' where "?C = ?P @ ts'" by blast
      with c Cons have "ts = f # fs' @ ts'" by simp
      with diff Cons show False by simp
    qed
    with no show ?thesis by simp
  qed
qed

text \<open>
  Claim C4. The guard is to accept a path exactly when its normal form is an allow-list
  root or a strict descendant of one. The path \<open>/a/b/..c\<close> is its own normal form and
  lies directly inside the root \<open>/a/b\<close> (its segments are those of the root followed by
  the name \<open>..c\<close>), yet \<open>isSubPath\<close> answers no: the relative path \<open>..c\<close> starts with
  two dots, which the test \<open>rel.startsWith('..')\<close> takes for a step out of the root. So
  \<open>isAllowed\<close> rejects a strict descendant of a root.
\<close>

theorem isAllowed_rejects_dotdot_named_child:
  "resolved_segments ''/srv'' ''/a/b/..c'' = resolved_segments ''/srv'' ''/a/b'' @ [''..c'']
   \<and> path_resolve ''/srv'' ''/a/b/..c'' = ''/a/b/..c''
   \<and> path_relative ''/srv'' ''/a/b'' ''/a/b/..c'' = ''..c''
   \<and> isSubPath ''/srv'' ''/a/b/..c'' ''/a/b'' = False
   \<and> isAllowed ''/srv'' ''/a/b/..c'' [''/a/b''] = False"
  by (simp add: path_defs)

section \<open>Frame lemmas\<close>

lemma foldl_keeps: "(\<And>a x. sel (f a x) = sel a) \<Longrightarrow> sel (foldl f s xs) = sel s"
  by (induction xs arbitrary: s) auto

lemma res_write_frame [simp]:
  "runs (res_write s r t) = runs s" "heap (res_write s r t) = heap s"
  "dock (res_write s r t) = dock s" "events (res_write s r t) = events s"
  "ended (res_write s r t) = ended s" "fsys (res_write s r t) = fsys s"
  by (simp_all add: res_write_def)

lemma res_end_frame [simp]:
  "runs (res_end s r) = runs s" "heap (res_end s r) = heap s"
  "dock (res_end s r) = dock s" "events (res_end s r) = events s"
  "out (res_end s r) = out s" "fsys (res_end s r) = fsys s"
  by (simp_all add: res_end_def)

lemma sseSend_frame [simp]:
  "runs (sseSend s r t) = runs s" "heap (sseSend s r t) = heap s"
  "dock (sseSend s r t) = dock s" "events (sseSend s r t) = events s"
  "ended (sseSend s r t) = ended s" "fsys (sseSend s r t) = fsys s"
  by (simp_all add: sseSend_def foldl_keeps)

lemma upd_run_frame [simp]:
  "runs (upd_run s rid f) = runs s"
  "heap (upd_run s rid f) = (heap s)(rid := map_option f (heap s rid))"
  "dock (upd_run s rid f) = dock s" "events (upd_run s rid f) = events s"
  "out (upd_run s rid f) = out s" "ended (upd_run s rid f) = ended s"
  "fsys (upd_run s rid f) = fsys s"
  by (simp_all add: upd_run_def)

lemma eventsBroadcast_frame [simp]:
  "runs (eventsBroadcast s n rid w) = runs s" "heap (eventsBroadcast s n rid w) = heap s"
  "dock (eventsBroadcast s n rid w) = dock s"
  "events (eventsBroadcast s n rid w) = events s @ [\<lparr>ev_name = n, ev_runId = rid, ev_warm = w\<rparr>]"
  "out (eventsBroadcast s n rid w) = out s" "ended (eventsBroadcast s n rid w) = ended s"
  "fsys (eventsBroadcast s n rid w) = fsys s"
  by (simp_all add: eventsBroadcast_def)

lemma stream_write_frame [simp]:
  "runs (stream_write s rid t) = runs s" "heap (stream_write s rid t) = heap s"
  "dock (stream_write s rid t) = dock s" "events (stream_write s rid t) = events s"
  "out (stream_write s rid t) = out s" "ended (stream_write s rid t) = ended s"
  "fsys (stream_write s rid t) = fsys s"
  by (simp_all add: stream_write_def)

lemma runs_delete_frame [simp]:
  "runs (runs_delete s rid) = removeAll rid (runs s)" "heap (runs_delete s rid) = heap s"
  "dock (runs_delete s rid) = dock s" "events (runs_delete s rid) = events s"
  "out (runs_delete s rid) = out s" "ended (runs_delete s rid) = ended s"
  "fsys (runs_delete s rid) = fsys s"
  by (simp_all add: runs_delete_def)

lemma end_listeners_frame [simp]:
  "runs (end_listeners s rid) = runs s"
  "dock (end_listeners s rid) = dock s" "events (end_listeners s rid) = events s"
  "out (end_listeners s rid) = out s" "fsys (end_listeners s rid) = fsys s"
  "heap (end_listeners s rid) = (heap s)(rid := map_option (\<lambda>r. r\<lparr>listeners := []\<rparr>) (heap s rid))"
  by (auto simp: end_listeners_def foldl_keeps split: option.splits)

lemma notify_end_listeners_frame [simp]:
  "runs (notify_end_listeners s rid m) = runs s"
  "dock (notify_end_listeners s rid m) = dock s"
  "events (notify_end_listeners s rid m) = events s"
  "fsys (notify_end_listeners s rid m) = fsys s"
  "heap (notify_end_listeners s rid m) = (heap s)(rid := map_option (\<lambda>r. r\<lparr>listeners := []\<rparr>) (heap s rid))"
  by (auto simp: notify_end_listeners_def foldl_keeps split: option.splits)

lemma quiet_up [simp]:
  "daemon_up (quiet d (container_stop d c)) = daemon_up d"
  "daemon_up (quiet d (container_kill d c)) = daemon_up d"
  "daemon_up (quiet d (container_remove d c)) = daemon_up d"
  "daemon_up (quiet d (container_exec d c cmd)) = daemon_up d"
  by (auto simp: quiet_def container_stop_def container_kill_def container_remove_def
      container_exec_def set_state_def split: option.splits)

lemma quiet_exec_containers [simp]:
  "containers (quiet d (container_exec d c cmd)) = containers d"
  by (auto simp: quiet_def container_exec_def split: option.splits)


lemmas run_defs = startRun_def ensureWarmContainer_def findWarmContainer_def listContainers_def
  createContainer_def container_start_def container_exec_def inspect_def set_state_def
  runs_set_def eventsBroadcast_def ensureDir_def appendFile_def label_matches_def
  labelsForWarm_def uidgid_or_empty_def ENGINES_def path_join_def path_normalize_def
  string_of_nat.simps

lemma fresh_state_eval:
  "runs fresh_state = [''r1'']"
  "heap fresh_state ''r1'' =
     Some \<lparr>run_engine = ''codex'', run_workspace = ''/tmp/ws'', run_creds = ''/tmp/cr'',
           containerId = ''0'', containerName = ''adz-codex-T1-r1'', status = ''running'',
           transcriptPath = ''/tmp/ws/.runs/codex-T1.log'', listeners = [], isExec = False,
           lastActivityAt = 1000\<rparr>"
  "dock fresh_state =
     \<lparr>containers = [\<lparr>c_Id = ''0'', c_Name = ''adz-codex-T1-r1'', c_State = ''running'',
                      c_Labels = [(''adz.engine'', ''codex''), (''adz.workspace'', ''/tmp/ws''),
                                  (''adz.creds'', ''/tmp/cr''), (''adz.runId'', ''r1'')],
                      c_AutoRemove = True\<rparr>],
      daemon_up = True, next_id = 1, execs = []\<rparr>"
  "events fresh_state = [\<lparr>ev_name = ''run-started'', ev_runId = ''r1'', ev_warm = False\<rparr>]"
  by (simp_all add: fresh_state_def cfg0_def init_state_def req0_def run_defs path_defs Let_def)

lemma warm_state_eval:
  "runs warm_state = [''r2'']"
  "heap warm_state ''r2'' =
     Some \<lparr>run_engine = ''codex'', run_workspace = ''/tmp/ws'', run_creds = ''/tmp/cr'',
           containerId = ''0'', containerName = ''0'', status = ''running'',
           transcriptPath = ''/tmp/ws/.runs/codex-T2.log'', listeners = [], isExec = True,
           lastActivityAt = 2000\<rparr>"
  "dock warm_state =
     \<lparr>containers = [\<lparr>c_Id = ''0'', c_Name = ''adz-warm-codex-T0'', c_State = ''running'',
                      c_Labels = [(''adz.warm'', ''true''), (''adz.engine'', ''codex''),
                                  (''adz.workspace'', ''/tmp/ws''), (''adz.creds'', ''/tmp/cr''),
                                  (''adz.readonly'', ''1''), (''adz.uidgid'', [])],
                      c_AutoRemove = False\<rparr>],
      daemon_up = True, next_id = 1, execs = [(''0'', [''/entrypoint.sh''])]\<rparr>"
  "events warm_state = [\<lparr>ev_name = ''run-started'', ev_runId = ''r2'', ev_warm = True\<rparr>]"
  by (simp_all add: warm_state_def cfg0_def init_state_def req0_def run_defs path_defs Let_def)

lemma halted_state_eval:
  "runs halted_state = [''r1'']"
  "heap halted_state ''r1'' =
     Some \<lparr>run_engine = ''codex'', run_workspace = ''/tmp/ws'', run_creds = ''/tmp/cr'',
           containerId = ''0'', containerName = ''adz-codex-T1-r1'', status = ''running'',
           transcriptPath = ''/tmp/ws/.runs/codex-T1.log'', listeners = [], isExec = False,
           lastActivityAt = 1000\<rparr>"
  "resolveStatus (dock halted_state) ''0'' = Some ''exited''"
  "events halted_state = [\<lparr>ev_name = ''run-started'', ev_runId = ''r1'', ev_warm = False\<rparr>]"
  by (simp_all add: halted_state_def resolveStatus_def container_exits_def inspect_def
      fresh_state_eval)

lemmas handler_defs = stop_run_def kill_run_def close_run_def autoStopRun_def
  on_stream_end_def on_container_wait_def

lemma fallback_runs [simp]: "runs (fst (fallback_cleanup h s rid)) = runs s"
  by (simp add: fallback_cleanup_def split: sum.splits)

lemma fallback_events [simp]: "events (fst (fallback_cleanup h s rid)) = events s"
  by (simp add: fallback_cleanup_def split: sum.splits)



section \<open>Registry and status (C1)\<close>

lemma ended_state_eval:
  "runs ended_state = [''r2'']"
  "map_option status (heap ended_state ''r2'') = Some ''exited''"
  "map_option isExec (heap ended_state ''r2'') = Some True"
  "events ended_state = [\<lparr>ev_name = ''run-started'', ev_runId = ''r2'', ev_warm = True\<rparr>,
                         \<lparr>ev_name = ''run-exited'', ev_runId = ''r2'', ev_warm = True\<rparr>]"
  "daemon_up (dock ended_state)"
  by (simp_all add: ended_state_def on_stream_end_def warm_state_eval Let_def)

lemma reaper_skips_exited_run: "idle_sweep cfg0 ended_state t = ended_state"
proof -
  obtain r where r: "heap ended_state ''r2'' = Some r" and st: "status r = ''exited''"
    using ended_state_eval(2) by auto
  then show ?thesis by (simp add: idle_sweep_def cfg0_def ended_state_eval(1))
qed

text \<open>
  When the daemon has already removed the container of the fresh run \<open>r1\<close>, the
  continuation of \<open>container.wait()\<close> gives up at \<open>inspect\<close> and changes nothing.
\<close>

lemma wait_after_autoremove: "on_container_wait removed_state ''r1'' = removed_state"
proof -
  have h: "heap removed_state ''r1'' = heap halted_state ''r1''"
    by (simp add: removed_state_def)
  have "resolveStatus (dock removed_state) ''0'' = None"
    by (simp add: removed_state_def halted_state_def daemon_autoremove_def container_exits_def
        resolveStatus_def inspect_def fresh_state_eval)
  then show ?thesis by (simp add: on_container_wait_def h halted_state_eval)
qed

text \<open>
  The run \<open>r2\<close> is started in the warm container and the stream of its process ends,
  so the \<open>end\<close> handler runs: the registry still answers \<open>r2\<close>, with the status
  \<open>exited\<close>. So a registry entry can have a status other than \<open>running\<close>.
\<close>

theorem exited_run_stays_registered:
  "map_option status (runs_get ended_state ''r2'') = Some ''exited''"
  by (simp add: runs_get_def ended_state_eval)

text \<open>
  Claim C1, as the code has it. For every run object: stop, kill and close leave its id
  out of the registry. The end of the stream of a warm-exec run, the exit of the
  container of a fresh run and the idle stop leave the registry as it is and store a
  status: \<open>exited\<close>, the state that the runtime reports for the container, and
  \<open>stopped\<close>.
\<close>

theorem registry_after_transition:
  assumes "heap s rid = Some r"
  shows "rid \<notin> set (runs (fst (stop_run s rid)))
   \<and> rid \<notin> set (runs (fst (kill_run s rid)))
   \<and> rid \<notin> set (runs (fst (close_run s rid)))
   \<and> runs (on_stream_end s rid) = runs s
   \<and> runs (on_container_wait s rid) = runs s
   \<and> runs (autoStopRun cfg s rid) = runs s
   \<and> (isExec r \<longrightarrow> map_option status (heap (on_stream_end s rid) rid) = Some ''exited'')
   \<and> (\<forall>st. \<not> isExec r \<and> resolveStatus (dock s) (containerId r) = Some st \<longrightarrow>
          map_option status (heap (on_container_wait s rid) rid) = Some st)
   \<and> map_option status (heap (autoStopRun cfg s rid) rid) = Some ''stopped''"
  using assms
  by (auto simp: handler_defs runs_get_def Let_def split: option.splits if_splits)

text \<open>
  The theorem at the fresh run \<open>r1\<close> whose container has just ended, and at the
  warm-exec run \<open>r2\<close>.
\<close>

theorem registry_after_transition_witness:
  "map_option isExec (heap halted_state ''r1'') = Some False
   \<and> resolveStatus (dock halted_state) ''0'' = Some ''exited''
   \<and> ''r1'' \<notin> set (runs (fst (stop_run halted_state ''r1'')))
   \<and> runs (on_container_wait halted_state ''r1'') = [''r1'']
   \<and> map_option status (heap (on_container_wait halted_state ''r1'') ''r1'') = Some ''exited''
   \<and> runs (autoStopRun cfg0 halted_state ''r1'') = [''r1'']
   \<and> map_option status (heap (autoStopRun cfg0 halted_state ''r1'') ''r1'') = Some ''stopped''
   \<and> map_option isExec (heap warm_state ''r2'') = Some True
   \<and> runs (on_stream_end warm_state ''r2'') = [''r2'']
   \<and> map_option status (heap (on_stream_end warm_state ''r2'') ''r2'') = Some ''exited''
   \<and> ''r2'' \<notin> set (runs (fst (close_run warm_state ''r2'')))"
proof -
  from registry_after_transition[OF halted_state_eval(2), of cfg0]
       registry_after_transition[OF warm_state_eval(2), of cfg0]
  show ?thesis by (simp add: halted_state_eval warm_state_eval)
qed

section \<open>Terminal events (C2)\<close>




section \<open>Containers after a terminal operation (C3)\<close>



section \<open>Stopping a run the registry lacks (C5)\<close>

text \<open>
  In the empty orchestrator no run is registered and the runtime has no container, yet
  the request to stop \<open>r1\<close> is answered with success (nothing removed, by fall-back)
  and not with 404.
\<close>

theorem stop_unknown_run_succeeds:
  "runs init_state = [] \<and> containers (dock init_state) = []
   \<and> snd (stop_run init_state ''r1'') = Fallback False"
  by (simp add: init_state_def stop_run_def runs_get_def fallback_cleanup_def listContainers_def)

lemma halt_props:
  assumes "halt = container_stop \<or> halt = container_kill"
  shows "daemon_up (quiet d (halt d cid)) = daemon_up d"
    and "id_labels (quiet d (halt d cid)) = id_labels d"
  using assms
  by (auto simp: id_labels_def quiet_def container_stop_def container_kill_def set_state_def
      comp_def split: option.splits if_splits)

lemma remove_props:
  "daemon_up (quiet d (container_remove d cid)) = daemon_up d"
  "daemon_up d \<Longrightarrow>
   id_labels (quiet d (container_remove d cid)) = filter (\<lambda>p. fst p \<noteq> cid) (id_labels d)"
  by (auto simp: id_labels_def quiet_def container_remove_def inspect_def find_None_iff
      filter_map comp_def filter_id_conv split: option.splits)

lemma cleanup_step_props:
  assumes "halt = container_stop \<or> halt = container_kill"
  shows "daemon_up (cleanup_step halt d c) = daemon_up d"
    and "daemon_up d \<Longrightarrow>
         id_labels (cleanup_step halt d c) = filter (\<lambda>p. fst p \<noteq> c_Id c) (id_labels d)"
  using assms by (simp_all add: cleanup_step_def Let_def halt_props remove_props)

lemma cleanup_fold_props:
  assumes "halt = container_stop \<or> halt = container_kill" and "daemon_up d"
  shows "daemon_up (foldl (cleanup_step halt) d L)
       \<and> id_labels (foldl (cleanup_step halt) d L)
           = filter (\<lambda>p. fst p \<notin> c_Id ` set L) (id_labels d)"
  using assms(2)
proof (induction L arbitrary: d)
  case Nil
  then show ?case by simp
next
  case (Cons c L)
  have up1: "daemon_up (cleanup_step halt d c)"
    using Cons.prems by (simp add: cleanup_step_props(1)[OF assms(1)])
  show ?case
    using Cons.IH[OF up1] Cons.prems
    by (simp add: cleanup_step_props(2)[OF assms(1)] conj_commute)
qed

lemma fallback_cleanup_unfold:
  "fallback_cleanup halt s rid =
     (case listContainers (dock s) [''adz.runId='' @ rid] of
        Inl _ \<Rightarrow> (s, NotFound)
      | Inr list \<Rightarrow> (s\<lparr>dock := foldl (cleanup_step halt) (dock s) list\<rparr>,
                      Fallback (length list > 0)))"
  unfolding fallback_cleanup_def cleanup_step_def by (rule refl)

lemma list_by_runId:
  "daemon_up d \<Longrightarrow>
   listContainers d [''adz.runId='' @ rid]
     = Inr (filter (\<lambda>c. map_of (c_Labels c) ''adz.runId'' = Some rid) (containers d))"
  by (simp add: listContainers_def label_matches_def)

lemma fallback_cleanup_up:
  assumes "daemon_up (dock s)" and "halt = container_stop \<or> halt = container_kill"
  shows "snd (fallback_cleanup halt s rid)
           = Fallback (\<exists>c \<in> set (containers (dock s)). map_of (c_Labels c) ''adz.runId'' = Some rid)"
    and "\<forall>c \<in> set (containers (dock (fst (fallback_cleanup halt s rid)))).
           map_of (c_Labels c) ''adz.runId'' \<noteq> Some rid"
    and "daemon_up (dock (fst (fallback_cleanup halt s rid)))"
    and "runs (fst (fallback_cleanup halt s rid)) = runs s"
proof -
  let ?L = "filter (\<lambda>c. map_of (c_Labels c) ''adz.runId'' = Some rid) (containers (dock s))"
  have eq: "fallback_cleanup halt s rid =
      (s\<lparr>dock := foldl (cleanup_step halt) (dock s) ?L\<rparr>, Fallback (length ?L > 0))"
    unfolding fallback_cleanup_unfold list_by_runId[OF assms(1)] by simp
  show "snd (fallback_cleanup halt s rid)
           = Fallback (\<exists>c \<in> set (containers (dock s)). map_of (c_Labels c) ''adz.runId'' = Some rid)"
    by (auto simp: eq filter_empty_conv)
  note P = cleanup_fold_props[OF assms(2) assms(1), of ?L]
  show "daemon_up (dock (fst (fallback_cleanup halt s rid)))"
    using P by (simp add: eq)
  show "runs (fst (fallback_cleanup halt s rid)) = runs s" by (simp add: eq)
  show "\<forall>c \<in> set (containers (dock (fst (fallback_cleanup halt s rid)))).
           map_of (c_Labels c) ''adz.runId'' \<noteq> Some rid"
  proof
    fix c' assume c': "c' \<in> set (containers (dock (fst (fallback_cleanup halt s rid))))"
    then have "(c_Id c', c_Labels c') \<in> set (id_labels (foldl (cleanup_step halt) (dock s) ?L))"
      by (simp add: eq id_labels_def image_iff) blast
    with P have "(c_Id c', c_Labels c')
        \<in> set (filter (\<lambda>p. fst p \<notin> c_Id ` set ?L) (id_labels (dock s)))"
      by simp
    then have nid: "c_Id c' \<notin> c_Id ` set ?L"
      and "(c_Id c', c_Labels c') \<in> set (id_labels (dock s))" by simp_all
    then obtain c0 where c0: "c0 \<in> set (containers (dock s))" "c_Id c0 = c_Id c'"
        "c_Labels c0 = c_Labels c'" by (auto simp: id_labels_def)
    show "map_of (c_Labels c') ''adz.runId'' \<noteq> Some rid"
    proof
      assume m: "map_of (c_Labels c') ''adz.runId'' = Some rid"
      with c0 have "c0 \<in> set ?L" by simp
      then have "c_Id c0 \<in> c_Id ` set ?L" by (rule imageI)
      with c0(2) nid show False by (simp only:)
    qed
  qed
qed

text \<open>
  Claim C5, as the code has it. For a run id that the registry lacks: when the runtime
  answers, the stop request is answered with success by fall-back, \<open>removed\<close> telling
  whether a container labelled with that run id existed; afterwards no container carries
  that label, and a second stop request is answered with success, nothing removed. The
  answer is 404 exactly when the runtime does not answer the listing, and then nothing
  changes.
\<close>

theorem stop_absent_run:
  assumes "rid \<notin> set (runs s)"
  shows "(daemon_up (dock s) \<longrightarrow>
            snd (stop_run s rid)
              = Fallback (\<exists>c \<in> set (containers (dock s)).
                            map_of (c_Labels c) ''adz.runId'' = Some rid)
          \<and> (\<forall>c \<in> set (containers (dock (fst (stop_run s rid)))).
                map_of (c_Labels c) ''adz.runId'' \<noteq> Some rid)
          \<and> snd (stop_run (fst (stop_run s rid)) rid) = Fallback False)
       \<and> (\<not> daemon_up (dock s) \<longrightarrow> stop_run s rid = (s, NotFound))"
proof -
  have eq: "stop_run s rid = fallback_cleanup container_stop s rid"
    using assms by (simp add: stop_run_def runs_get_def)
  show ?thesis
  proof (cases "daemon_up (dock s)")
    case False
    then show ?thesis by (simp add: eq fallback_cleanup_def listContainers_def)
  next
    case True
    have h: "container_stop = container_stop \<or> container_stop = container_kill" by simp
    note F = fallback_cleanup_up[OF True h, of rid]
    let ?s1 = "fst (fallback_cleanup container_stop s rid)"
    have eq2: "stop_run ?s1 rid = fallback_cleanup container_stop ?s1 rid"
      using assms F(4) by (simp add: stop_run_def runs_get_def)
    have "snd (fallback_cleanup container_stop ?s1 rid) = Fallback False"
      using fallback_cleanup_up(1)[OF F(3) h, of rid] F(2) by auto
    with True F show ?thesis by (simp add: eq eq2)
  qed
qed

text \<open>
  The theorem at the orchestrator that has lost its registry while the container of
  \<open>r1\<close> lives on, with the runtime answering and with the runtime out of reach.
\<close>

theorem stop_absent_run_witness:
  "''r1'' \<notin> set (runs orphan_state)
   \<and> daemon_up (dock orphan_state)
   \<and> map (\<lambda>c. map_of (c_Labels c) ''adz.runId'') (containers (dock orphan_state)) = [Some ''r1'']
   \<and> snd (stop_run orphan_state ''r1'') = Fallback True
   \<and> containers (dock (fst (stop_run orphan_state ''r1''))) = []
   \<and> snd (stop_run (fst (stop_run orphan_state ''r1'')) ''r1'') = Fallback False
   \<and> ''r1'' \<notin> set (runs down_state)
   \<and> \<not> daemon_up (dock down_state)
   \<and> stop_run down_state ''r1'' = (down_state, NotFound)"
proof -
  have a: "''r1'' \<notin> set (runs orphan_state)" by (simp add: orphan_state_def init_state_def)
  have a': "''r1'' \<notin> set (runs down_state)"
    by (simp add: down_state_def orphan_state_def init_state_def)
  have d: "dock orphan_state = dock fresh_state" by (simp add: orphan_state_def)
  have d': "\<not> daemon_up (dock down_state)" by (simp add: down_state_def)
  have e: "containers (dock (fst (stop_run orphan_state ''r1''))) = []"
    using a
    by (simp add: stop_run_def runs_get_def fallback_cleanup_def listContainers_def
        label_matches_def d fresh_state_eval quiet_def container_stop_def container_remove_def
        inspect_def set_state_def)
  from stop_absent_run[OF a] stop_absent_run[OF a'] show ?thesis
    by (simp add: a a' d' e) (simp add: d fresh_state_eval)
qed

section \<open>The bulk handlers and the registry (C10)\<close>



section \<open>Readiness (C7)\<close>

lemma has_iff_set: "has (readCredsEnv fs credsPath) k = spec_key_set fs credsPath k"
  by (auto simp: has_def spec_key_set_def split: option.splits)

lemma existsDir_iff_non_empty:
  "existsDir fs credsPath sub = spec_subdir_non_empty fs credsPath sub"
  by (auto simp: existsDir_def dirNonEmpty_def spec_subdir_non_empty_def split: option.splits)

text \<open>
  Claim C7. For an engine of the three and a credentials directory that the guard
  admits, \<open>checkReadiness\<close> returns a result for that engine whose \<open>ready\<close> is the rule
  of the specification: for codex, \<open>OPENAI_API_KEY\<close> set or \<open>codex/\<close> non-empty; for
  gemini, \<open>GEMINI_API_KEY\<close> set or \<open>gemini/\<close> or \<open>gcloud/\<close> non-empty; for opencode,
  one of the three keys set or \<open>opencode/\<close> non-empty. A key counts as set when it has a
  value other than the empty string.
\<close>

theorem checkReadiness_rules:
  assumes "eng \<in> set ENGINES" and "isAllowed wd credsPath roots"
  shows "\<exists>rd env. checkReadiness wd roots fs eng credsPath = Inr (rd, env)
           \<and> rd_engine rd = eng
           \<and> ready rd = spec_ready fs credsPath eng
           \<and> (ready rd = (reasons rd = []))
           \<and> env = readCredsEnv fs credsPath"
  using assms
  by (auto simp: checkReadiness_def ENGINES_def spec_ready_def Let_def
      has_iff_set existsDir_iff_non_empty)

lemma creds_env_eval:
  "readCredsEnv creds_fs ''/tmp/cr'' = [(''OPENAI_API_KEY'', []), (''GEMINI_API_KEY'', ''g-1'')]"
  by (simp add: readCredsEnv_def creds_fs_def path_join_def path_normalize_def path_defs
      LF_def CR_def
      parseDotEnv_def parse_line_def trim_def trimStart_def trimEnd_def is_space_def
      strip_quotes_def endsWith_def obj_assign_def Let_def)

text \<open>
  The theorem at a credentials directory whose file sets \<open>GEMINI_API_KEY\<close>, leaves
  \<open>OPENAI_API_KEY\<close> empty, and whose \<open>codex/\<close> is empty and \<open>opencode/\<close> is not.
\<close>

theorem checkReadiness_rules_witness:
  "isAllowed ''/srv'' ''/tmp/cr'' [''/tmp/cr'']
   \<and> map_sum id (ready \<circ> fst) (checkReadiness ''/srv'' [''/tmp/cr''] creds_fs ''codex'' ''/tmp/cr'')
       = Inr False
   \<and> spec_ready creds_fs ''/tmp/cr'' ''codex'' = False
   \<and> map_sum id (ready \<circ> fst) (checkReadiness ''/srv'' [''/tmp/cr''] creds_fs ''gemini'' ''/tmp/cr'')
       = Inr True
   \<and> map_sum id (ready \<circ> fst) (checkReadiness ''/srv'' [''/tmp/cr''] creds_fs ''opencode'' ''/tmp/cr'')
       = Inr True"
proof -
  have a: "isAllowed ''/srv'' ''/tmp/cr'' [''/tmp/cr'']" by (simp add: path_defs)
  have e: "''codex'' \<in> set ENGINES" "''gemini'' \<in> set ENGINES" "''opencode'' \<in> set ENGINES"
    by (simp_all add: ENGINES_def)
  have d: "dirs creds_fs ''/tmp/cr/codex'' = Some []"
    "dirs creds_fs ''/tmp/cr/gemini'' = None" "dirs creds_fs ''/tmp/cr/gcloud'' = None"
    "dirs creds_fs ''/tmp/cr/opencode'' = Some [''auth.json'']"
    by (simp_all add: creds_fs_def)
  have j: "path_join ''/tmp/cr'' ''codex'' = ''/tmp/cr/codex''"
    "path_join ''/tmp/cr'' ''gemini'' = ''/tmp/cr/gemini''"
    "path_join ''/tmp/cr'' ''gcloud'' = ''/tmp/cr/gcloud''"
    "path_join ''/tmp/cr'' ''opencode'' = ''/tmp/cr/opencode''"
    by (simp_all add: path_join_def path_normalize_def path_defs)
  have s: "spec_ready creds_fs ''/tmp/cr'' ''codex'' = False"
    "spec_ready creds_fs ''/tmp/cr'' ''gemini'' = True"
    "spec_ready creds_fs ''/tmp/cr'' ''opencode'' = True"
    by (simp_all add: spec_ready_def spec_key_set_def spec_subdir_non_empty_def creds_env_eval
        obj_get_def d j)
  from checkReadiness_rules[OF e(1) a, of creds_fs]
       checkReadiness_rules[OF e(2) a, of creds_fs]
       checkReadiness_rules[OF e(3) a, of creds_fs]
  show ?thesis by (auto simp: a s)
qed

section \<open>Warm-pool lookup (C8)\<close>

lemma warm_pool_eval:
  "warm_pool =
     \<lparr>containers = [\<lparr>c_Id = ''0'', c_Name = ''adz-warm-codex-T0'', c_State = ''running'',
                      c_Labels = [(''adz.warm'', ''true''), (''adz.engine'', ''codex''),
                                  (''adz.workspace'', ''/tmp/ws''), (''adz.creds'', ''/tmp/cr''),
                                  (''adz.readonly'', ''1''), (''adz.uidgid'', [])],
                      c_AutoRemove = False\<rparr>],
      daemon_up = True, next_id = 1, execs = []\<rparr>"
  by (simp add: warm_pool_def init_state_def req0_def run_defs Let_def)

text \<open>
  The warm container was ensured for the workspace \<open>/tmp/ws\<close>. The path \<open>/tmp/ws/\<close>
  is absolute, has the same normal form and passes the guard, but a request that names
  the workspace so finds no warm container.
\<close>

theorem trailing_slash_misses_warm_container:
  "path_isAbsolute ''/tmp/ws/''
   \<and> path_resolve ''/srv'' ''/tmp/ws/'' = path_resolve ''/srv'' ''/tmp/ws''
   \<and> isAllowed ''/srv'' ''/tmp/ws/'' [''/tmp/ws'']
   \<and> map_sum id (map_option c_Id) (findWarmContainer warm_pool req0) = Inr (Some ''0'')
   \<and> findWarmContainer warm_pool (req0\<lparr>workspace := ''/tmp/ws/''\<rparr>) = Inr None"
  by (simp add: path_defs warm_pool_eval req0_def findWarmContainer_def listContainers_def
      label_matches_def uidgid_or_empty_def)

lemma warm_filter_labels:
  "c_Labels c = labelsForWarm fp \<Longrightarrow> warm_filter fp' c = same_raw_fields fp fp'"
  by (auto simp: warm_filter_def labelsForWarm_def label_matches_def same_raw_fields_def)

lemma findWarm_unfold:
  "findWarmContainer d fp =
     (if daemon_up d
      then Inr (find (\<lambda>c. c_State c = ''running'') (filter (warm_filter fp) (containers d)))
      else Inl RuntimeError)"
  by (simp add: findWarmContainer_def listContainers_def warm_filter_def[abs_def])

lemma create_start:
  assumes "createContainer d name labels ar = Inr (d1, cid)"
  shows "daemon_up d"
    and "container_start d1 cid
         = Inr (d\<lparr>containers := \<lparr>c_Id = cid, c_Name = name, c_State = ''running'',
                                   c_Labels = labels, c_AutoRemove = ar\<rparr> # containers d,
                  next_id := Suc (next_id d)\<rparr>)"
proof -
  from assms show up: "daemon_up d"
    by (simp add: createContainer_def Let_def split: if_splits)
  from assms have fresh: "cid \<notin> c_Id ` set (containers d)"
    by (auto simp: createContainer_def Let_def split: if_splits)
  then have same: "map (\<lambda>c. if c_Id c = cid then c\<lparr>c_State := ''running''\<rparr> else c) (containers d)
      = containers d"
    by (intro map_idI) auto
  from assms have d1: "d1 = d\<lparr>containers :=
                        \<lparr>c_Id = cid, c_Name = name, c_State = ''created'',
                         c_Labels = labels, c_AutoRemove = ar\<rparr> # containers d,
                      next_id := Suc (next_id d)\<rparr>"
    by (auto simp: createContainer_def Let_def split: if_splits)
  show "container_start d1 cid
         = Inr (d\<lparr>containers := \<lparr>c_Id = cid, c_Name = name, c_State = ''running'',
                                   c_Labels = labels, c_AutoRemove = ar\<rparr> # containers d,
                  next_id := Suc (next_id d)\<rparr>)"
    using up same by (simp add: d1 container_start_def inspect_def set_state_def)
qed

lemma ensure_cases:
  assumes "ensureWarmContainer d fp ts = Inr (d', cid, nm)"
  shows "(\<exists>c. findWarmContainer d fp = Inr (Some c) \<and> d' = d \<and> cid = c_Id c)
       \<or> (findWarmContainer d fp = Inr None \<and> daemon_up d
           \<and> d' = d\<lparr>containers := \<lparr>c_Id = cid, c_Name = nm, c_State = ''running'',
                                     c_Labels = labelsForWarm fp, c_AutoRemove = False\<rparr>
                                    # containers d,
                    next_id := Suc (next_id d)\<rparr>)"
proof (cases "findWarmContainer d fp")
  case (Inl e)
  with assms show ?thesis by (simp add: ensureWarmContainer_def)
next
  case (Inr found)
  show ?thesis
  proof (cases found)
    case (Some c)
    with Inr assms show ?thesis by (simp add: ensureWarmContainer_def)
  next
    case None
    define name where "name = ''adz-warm-'' @ engine fp @ ''-'' @ ts"
    have unf: "ensureWarmContainer d fp ts =
        (case createContainer d name (labelsForWarm fp) False of
           Inl e \<Rightarrow> Inl e
         | Inr (d1, cid) \<Rightarrow>
             (case container_start d1 cid of
                Inl e \<Rightarrow> Inl e
              | Inr d2 \<Rightarrow> Inr (d2, cid, name)))"
      unfolding ensureWarmContainer_def Let_def name_def using None Inr by simp
    show ?thesis
    proof (cases "createContainer d name (labelsForWarm fp) False")
      case (Inl e)
      with assms show ?thesis by (simp add: unf)
    next
      case cr: (Inr p)
      obtain d1 cid1 where p: "p = (d1, cid1)" by (cases p)
      note cs = create_start[OF cr[unfolded p]]
      from assms cr p cs(2) have "d' = d\<lparr>containers := \<lparr>c_Id = cid1, c_Name = name, c_State = ''running'',
                                   c_Labels = labelsForWarm fp, c_AutoRemove = False\<rparr>
                                  # containers d,
                  next_id := Suc (next_id d)\<rparr> \<and> cid = cid1 \<and> nm = name"
        by (auto simp: unf)
      with None Inr cs(1) show ?thesis by simp
    qed
  qed
qed

text \<open>
  Claim C8, as the code has it. A warm container is ensured for a fingerprint; a second
  request, for which no running warm container was found before, then finds a warm
  container exactly when its engine, workspace, creds, readOnly and uidgid (a missing one
  being the empty string) are byte-equal to those of the first, as the requests give
  them: paths are compared as written. When the fields agree, the container found is the
  one the first request gets.
\<close>

theorem warm_lookup_by_raw_fields:
  assumes "ensureWarmContainer d fp ts = Inr (d', cid, nm)"
    and "findWarmContainer d fp' = Inr None"
  shows "(findWarmContainer d' fp' \<noteq> Inr None) = same_raw_fields fp fp'
       \<and> (same_raw_fields fp fp' \<longrightarrow>
            map_sum id (map_option c_Id) (findWarmContainer d' fp') = Inr (Some cid)
            \<and> findWarmContainer d' fp' = findWarmContainer d' fp)"
proof -
  have up: "daemon_up d" using assms(2) by (simp add: findWarm_unfold split: if_splits)
  have same_filter: "same_raw_fields fp fp' \<Longrightarrow> warm_filter fp' = warm_filter fp"
    by (rule ext) (simp add: warm_filter_def same_raw_fields_def)
  from ensure_cases[OF assms(1)] show ?thesis
  proof
    assume "\<exists>c. findWarmContainer d fp = Inr (Some c) \<and> d' = d \<and> cid = c_Id c"
    then obtain c where c: "findWarmContainer d fp = Inr (Some c)" "d' = d" "cid = c_Id c"
      by blast
    have "\<not> same_raw_fields fp fp'"
    proof
      assume "same_raw_fields fp fp'"
      then have "findWarmContainer d fp' = findWarmContainer d fp"
        by (simp add: findWarm_unfold same_filter)
      with c(1) assms(2) show False by simp
    qed
    with c(2) assms(2) show ?thesis by simp
  next
    assume new: "findWarmContainer d fp = Inr None \<and> daemon_up d
           \<and> d' = d\<lparr>containers := \<lparr>c_Id = cid, c_Name = nm, c_State = ''running'',
                                     c_Labels = labelsForWarm fp, c_AutoRemove = False\<rparr>
                                    # containers d,
                    next_id := Suc (next_id d)\<rparr>"
    let ?new = "\<lparr>c_Id = cid, c_Name = nm, c_State = ''running'',
                 c_Labels = labelsForWarm fp, c_AutoRemove = False\<rparr>"
    have d': "containers d' = ?new # containers d" "daemon_up d'" using new by simp_all
    have wf: "warm_filter fp' ?new = same_raw_fields fp fp'"
      by (rule warm_filter_labels) simp
    have none_d: "find (\<lambda>c. c_State c = ''running'') (filter (warm_filter fp') (containers d)) = None"
      using assms(2) up by (simp add: findWarm_unfold)
    show ?thesis
    proof (cases "same_raw_fields fp fp'")
      case True
      then show ?thesis
        using wf d' by (simp add: findWarm_unfold same_filter)
    next
      case False
      then show ?thesis
        using none_d wf d' by (simp add: findWarm_unfold)
    qed
  qed
qed


text \<open>
  The theorem at the empty runtime: the request \<open>req0\<close> ensures the warm container
  \<open>0\<close>, and the same request finds it.
\<close>

theorem warm_lookup_by_raw_fields_witness:
  "ensureWarmContainer (dock init_state) req0 ''T0'' = Inr (warm_pool, ''0'', ''adz-warm-codex-T0'')
   \<and> findWarmContainer (dock init_state) req0 = Inr None
   \<and> same_raw_fields req0 req0
   \<and> findWarmContainer warm_pool req0 \<noteq> Inr None
   \<and> map_sum id (map_option c_Id) (findWarmContainer warm_pool req0) = Inr (Some ''0'')"
proof -
  have a: "ensureWarmContainer (dock init_state) req0 ''T0''
             = Inr (warm_pool, ''0'', ''adz-warm-codex-T0'')"
    by (simp add: warm_pool_eval) (simp add: init_state_def req0_def run_defs Let_def)
  have b: "findWarmContainer (dock init_state) req0 = Inr None"
    by (simp add: init_state_def findWarmContainer_def listContainers_def)
  have c: "same_raw_fields req0 req0" by (simp add: same_raw_fields_def)
  from warm_lookup_by_raw_fields[OF a b] show ?thesis
    by (simp add: a b c)
qed

section \<open>Frames of the log stream (C9)\<close>

lemma LF_CR [simp]: "LF \<noteq> CR" "CR \<noteq> LF" "LF \<noteq> CHR '':''" "CHR '':'' \<noteq> LF"
  by (simp_all add: LF_def CR_def)































section \<open>Writing and reading the credentials file (C6)\<close>

lemma not_space_eq [simp]: "\<not> is_space (CHR ''='')"
  by (simp add: is_space_def)

lemma space_CR_LF [simp]: "is_space CR" "is_space LF"
  by (simp_all add: is_space_def CR_def LF_def)























lemma obj_define_map_fst:
  "map fst (obj_define env k v)
     = (if k \<in> set (map fst env) then map fst env else map fst env @ [k])"
  by (induction env k v rule: obj_define.induct) auto

lemma obj_define_keys: "fst ` set (obj_define env k v) = insert k (fst ` set env)"
proof -
  have "set (map fst (obj_define env k v)) = insert k (set (map fst env))"
    by (simp only: obj_define_map_fst) auto
  then show ?thesis by simp
qed


lemma obj_define_values:
  "(k', v') \<in> set (obj_define env k v) \<Longrightarrow> (k', v') = (k, v) \<or> (k', v') \<in> set env"
  by (induction env k v rule: obj_define.induct) (auto split: if_splits)









































end
